theory Spec2Isabelle
  imports Main "HOL-Library.Word" "HOL-Library.Sublist"
begin

unbundle bit_operations_syntax

section \<open>acpid: the tables, the two-stage lookup and the dispatch\<close>

text \<open>
  A shallow embedding of \<^verbatim>\<open>util-linux/acpid.c\<close>. A C string is modelled by the list
  of its bytes before the terminating NUL, so a \<^typ>\<open>string\<close> of the model never holds
  a NUL byte and its \<^const>\<open>length\<close> is what \<^verbatim>\<open>strlen\<close> returns. A \<^verbatim>\<open>NULL\<close>
  pointer is \<^const>\<open>None\<close>.
\<close>

subsection \<open>Data\<close>

text \<open>The option bits of the \<^verbatim>\<open>enum\<close> at the head of the file.\<close>

definition OPT_c :: "32 word" where "OPT_c = push_bit 0 1"
definition OPT_d :: "32 word" where "OPT_d = push_bit 1 1"
definition OPT_e :: "32 word" where "OPT_e = push_bit 2 1"
definition OPT_f :: "32 word" where "OPT_f = push_bit 3 1"
definition OPT_l :: "32 word" where "OPT_l = push_bit 4 1"
definition OPT_a :: "32 word" where "OPT_a = push_bit 5 1"
definition OPT_M :: "32 word" where "OPT_M = push_bit 6 1"

text \<open>\<^verbatim>\<open>struct acpi_event\<close>: one row of the event table.\<close>

record acpi_event =
  s_type :: string
  n_type :: "16 word"
  s_code :: string
  n_code :: "16 word"
  "value" :: "32 word"
  desc :: string

text \<open>\<^verbatim>\<open>struct acpi_action\<close>: one row of the action table.\<close>

record acpi_action =
  key :: string
  action :: string

text \<open>
  \<^verbatim>\<open>struct input_event\<close> of \<^verbatim>\<open><linux/input.h>\<close>, which is not part of the
  repository: \<^verbatim>\<open>__u16 type; __u16 code; __s32 value;\<close> after a time stamp that acpid
  never reads. The fields carry the prefix \<open>ev_\<close> here, to keep them apart from those
  of the table row. The signed \<open>value\<close> is held as its 32 bits (two's complement);
  \<^const>\<open>sint\<close> reads it as the \<^verbatim>\<open>__s32\<close>.
\<close>

record input_event =
  ev_type :: "16 word"
  ev_code :: "16 word"
  ev_value :: "32 word"

definition f_evt_tab :: "acpi_event list" where
  "f_evt_tab =
    [\<lparr>s_type = ''EV_KEY'', n_type = 0x01, s_code = ''KEY_POWER'', n_code = 116, value = 1,
      desc = ''button/power PWRF 00000080''\<rparr>,
     \<lparr>s_type = ''EV_KEY'', n_type = 0x01, s_code = ''KEY_POWER'', n_code = 116, value = 1,
      desc = ''button/power PWRB 00000080''\<rparr>]"

definition f_act_tab :: "acpi_action list" where
  "f_act_tab =
    [\<lparr>key = ''PWRF'', action = ''PWRF/00000080''\<rparr>,
     \<lparr>key = ''LID0'', action = ''LID/00000080''\<rparr>]"

text \<open>
  \<^verbatim>\<open>struct globals\<close>. Each table is a list, and the counters \<^verbatim>\<open>n_act\<close> and
  \<^verbatim>\<open>n_evt\<close> are the lengths of the lists: every place of the source that adds a row
  increments the counter, and the built-in tables are installed with their \<^verbatim>\<open>ARRAY_SIZE\<close>.
\<close>

record globals =
  act_tab :: "acpi_action list"
  evt_tab :: "acpi_event list"

definition n_act :: "globals \<Rightarrow> nat" where
  "n_act G = length (act_tab G)"

definition n_evt :: "globals \<Rightarrow> nat" where
  "n_evt G = length (evt_tab G)"

text \<open>\<^verbatim>\<open>INIT_G\<close>: the zeroed structure, both tables empty.\<close>

definition INIT_G :: globals where
  "INIT_G = \<lparr>act_tab = [], evt_tab = []\<rparr>"

subsection \<open>The C library's string functions\<close>

text \<open>
  \<^verbatim>\<open>strncmp(s1, s2, n)\<close>: at most \<open>n\<close> bytes are compared, as unsigned bytes, and the
  comparison stops at the end of either string, where the terminating NUL is smaller
  than every byte of the other string. Only the sign of the result is specified by C, so
  the model returns -1, 0 or 1.
\<close>

fun strncmp :: "string \<Rightarrow> string \<Rightarrow> nat \<Rightarrow> int" where
  "strncmp s1 s2 0 = 0"
| "strncmp [] [] (Suc n) = 0"
| "strncmp [] (c2 # s2) (Suc n) = - 1"
| "strncmp (c1 # s1) [] (Suc n) = 1"
| "strncmp (c1 # s1) (c2 # s2) (Suc n) =
     (if c1 = c2 then strncmp s1 s2 n
      else if (of_char c1 :: nat) < of_char c2 then - 1 else 1)"

text \<open>
  \<^verbatim>\<open>strstr(haystack, needle)\<close>: the tail of the haystack from the first place where the
  needle occurs, or \<^verbatim>\<open>NULL\<close>; the empty needle occurs at the start.
\<close>

fun strstr :: "string \<Rightarrow> string \<Rightarrow> string option" where
  "strstr [] needle = (if needle = [] then Some [] else None)"
| "strstr (c # cs) needle =
     (if prefix needle (c # cs) then Some (c # cs) else strstr cs needle)"

subsection \<open>find\_action\<close>

text \<open>
  The first loop of \<^verbatim>\<open>find_action\<close> (\<^verbatim>\<open>// map event\<close>), over the rows from index
  \<open>i\<close> on: the binary test when \<^verbatim>\<open>ev\<close> is not \<^verbatim>\<open>NULL\<close>, then the textual test when
  \<^verbatim>\<open>buf\<close> is not \<^verbatim>\<open>NULL\<close>. The \<^verbatim>\<open>__s32\<close> value of the event is converted to unsigned
  for the comparison with the \<^verbatim>\<open>uint32_t\<close> of the row, which keeps its 32 bits.
\<close>

definition ev_matches :: "input_event \<Rightarrow> acpi_event \<Rightarrow> bool" where
  "ev_matches ev r \<longleftrightarrow>
     ev_type ev = n_type r \<and> ev_code ev = n_code r \<and> ev_value ev = value r"

definition buf_matches :: "string \<Rightarrow> acpi_event \<Rightarrow> bool" where
  "buf_matches buf r \<longleftrightarrow> strncmp buf (desc r) (length buf) = 0"

fun map_event :: "acpi_event list \<Rightarrow> input_event option \<Rightarrow> string option \<Rightarrow> string option" where
  "map_event [] ev buf = None"
| "map_event (r # rs) ev buf =
     (if (case ev of Some e \<Rightarrow> ev_matches e r | None \<Rightarrow> False) then Some (desc r)
      else if (case buf of Some b \<Rightarrow> buf_matches b r | None \<Rightarrow> False) then Some (desc r)
      else map_event rs ev buf)"

text \<open>The second loop (\<^verbatim>\<open>// get action\<close>), entered only with an action that is not \<^verbatim>\<open>NULL\<close>.\<close>

fun get_action :: "acpi_action list \<Rightarrow> string \<Rightarrow> string" where
  "get_action [] a = a"
| "get_action (r # rs) a =
     (if strstr a (key r) \<noteq> None then action r else get_action rs a)"

definition find_action :: "globals \<Rightarrow> input_event option \<Rightarrow> string option \<Rightarrow> string option" where
  "find_action G ev buf =
     (case map_event (evt_tab G) ev buf of
        None \<Rightarrow> None
      | Some a \<Rightarrow> Some (get_action (act_tab G) a))"

subsection \<open>The tests of the two loops, as predicates on a row\<close>

text \<open>
  The condition under which the first loop of \<^verbatim>\<open>find_action\<close> stops at a row, and the
  condition under which the second loop does.
\<close>

definition evt_row_matches :: "input_event option \<Rightarrow> string option \<Rightarrow> acpi_event \<Rightarrow> bool" where
  "evt_row_matches ev buf r \<longleftrightarrow>
     (case ev of Some e \<Rightarrow> ev_matches e r | None \<Rightarrow> False) \<or>
     (case buf of Some b \<Rightarrow> buf_matches b r | None \<Rightarrow> False)"

definition act_row_matches :: "string \<Rightarrow> acpi_action \<Rightarrow> bool" where
  "act_row_matches a r \<longleftrightarrow> strstr a (key r) \<noteq> None"

subsection \<open>process\_event\<close>

text \<open>
  What the daemon does to the outside: a line on the error channel (\<^verbatim>\<open>bb_error_msg\<close>),
  a \<^verbatim>\<open>spawn\<close> of an argument vector, a \<^verbatim>\<open>bb_simple_perror_msg\<close>.
\<close>

datatype effect = Error_msg string | Spawn "string list" | Perror_msg string

text \<open>
  The file-type bits of \<^verbatim>\<open>st_mode\<close>, with the values of \<^verbatim>\<open><sys/stat.h>\<close> on Linux
  (octal 0170000, 0040000, 0060000, 0100000 and 0140000); the header is not part of the
  repository. \<^verbatim>\<open>S_ISDIR\<close> is the header's test for a directory.
\<close>

definition S_IFMT :: "32 word" where "S_IFMT = 0xF000"
definition S_IFDIR :: "32 word" where "S_IFDIR = 0x4000"
definition S_IFBLK :: "32 word" where "S_IFBLK = 0x6000"
definition S_IFREG :: "32 word" where "S_IFREG = 0x8000"
definition S_IFSOCK :: "32 word" where "S_IFSOCK = 0xC000"

definition S_ISDIR :: "32 word \<Rightarrow> bool" where
  "S_ISDIR m \<longleftrightarrow> m AND S_IFMT = S_IFDIR"

text \<open>
  \<^verbatim>\<open>process_event\<close>. \<open>opts\<close> is \<^verbatim>\<open>option_mask32\<close>; \<open>stat\<close> answers \<^verbatim>\<open>stat(2)\<close>
  with the \<^verbatim>\<open>st_mode\<close> of the path, or with \<^const>\<open>None\<close> when the call fails.
  \<^verbatim>\<open>args + 1\<close> is the argument vector without its first entry.
\<close>

definition process_event :: "32 word \<Rightarrow> (string \<Rightarrow> 32 word option) \<Rightarrow> string \<Rightarrow> effect list" where
  "process_event opts stat event =
     (let handler = ''./'' @ event;
          args = [''run-parts'', handler]
      in (if opts AND OPT_d \<noteq> 0 then [Error_msg event] else []) @
         (case stat event of
            Some st_mode \<Rightarrow> [Spawn (drop (if st_mode AND S_IFDIR = 0 then 1 else 0) args)]
          | None \<Rightarrow> [Perror_msg event]))"

subsection \<open>Reading the configuration\<close>

datatype error = Die string

text \<open>
  Modelled from the spec: \<^verbatim>\<open>config_open2\<close> and \<^verbatim>\<open>config_read\<close> of libbb, which are
  not in the source at hand. An opened file is the list of the token vectors that the
  successive calls of \<^verbatim>\<open>config_read\<close> deliver, one for each valid line, before it
  returns 0; a file that cannot be opened is \<^const>\<open>None\<close>.
\<close>

type_synonym conf_parser = "(string \<times> string) list"
type_synonym map_parser = "(string \<times> string \<times> string \<times> string \<times> string \<times> string) list"

fun parse_conf_lines :: "conf_parser \<Rightarrow> globals \<Rightarrow> globals" where
  "parse_conf_lines [] G = G"
| "parse_conf_lines ((t0, t1) # ls) G =
     parse_conf_lines ls (G\<lparr>act_tab := act_tab G @ [\<lparr>key = t0, action = t1\<rparr>]\<rparr>)"

definition parse_conf_file :: "(string \<Rightarrow> conf_parser option) \<Rightarrow> string \<Rightarrow> globals \<Rightarrow> globals" where
  "parse_conf_file config_open2 filename G =
     (case config_open2 filename of
        Some parser \<Rightarrow> parse_conf_lines parser G
      | None \<Rightarrow> G\<lparr>act_tab := f_act_tab\<rparr>)"

text \<open>
  The number conversions of libbb are parameters: each returns \<^const>\<open>None\<close> where the
  C function prints a diagnostic and exits. \<^verbatim>\<open>xstrtou\<close> returns an \<^verbatim>\<open>unsigned\<close> that
  the assignment to the \<^verbatim>\<open>uint16_t\<close> field truncates; \<^verbatim>\<open>xatoi_positive\<close> returns an
  \<^verbatim>\<open>int\<close> (held as its 32 bits) that the assignment to the \<^verbatim>\<open>uint32_t\<close> field
  converts, keeping the bits.
\<close>

record libbb =
  xstrtou :: "string \<Rightarrow> nat \<Rightarrow> 32 word option"
  xatou16 :: "string \<Rightarrow> 16 word option"
  xatoi_positive :: "string \<Rightarrow> 32 word option"

fun parse_map_lines :: "libbb \<Rightarrow> map_parser \<Rightarrow> globals \<Rightarrow> error + globals" where
  "parse_map_lines L [] G = Inr G"
| "parse_map_lines L ((t0, t1, t2, t3, t4, t5) # ls) G =
     (case xstrtou L t1 16 of
        None \<Rightarrow> Inl (Die t1)
      | Some ty \<Rightarrow>
         (case xatou16 L t3 of
            None \<Rightarrow> Inl (Die t3)
          | Some cd \<Rightarrow>
             (case xatoi_positive L t4 of
                None \<Rightarrow> Inl (Die t4)
              | Some v \<Rightarrow>
                 parse_map_lines L ls
                   (G\<lparr>evt_tab := evt_tab G @
                      [\<lparr>s_type = t0, n_type = ucast ty, s_code = t2, n_code = cd,
                        value = v, desc = t5\<rparr>]\<rparr>))))"

definition parse_map_file ::
  "libbb \<Rightarrow> (string \<Rightarrow> map_parser option) \<Rightarrow> string \<Rightarrow> globals \<Rightarrow> error + globals" where
  "parse_map_file L config_open2 filename G =
     (case config_open2 filename of
        Some parser \<Rightarrow> parse_map_lines L parser G
      | None \<Rightarrow> Inr (G\<lparr>evt_tab := f_evt_tab\<rparr>))"

subsection \<open>acpid\_main: opening the event sources\<close>

text \<open>\<^verbatim>\<open>struct pollfd\<close>, and \<^verbatim>\<open>POLLIN\<close> of \<^verbatim>\<open><poll.h>\<close>.\<close>

record pollfd =
  fd :: int
  events :: "16 word"
  revents :: "16 word"

definition POLLIN :: "16 word" where "POLLIN = 0x0001"

text \<open>
  The system as the opening loop sees it: \<open>open_fd path n\<close> is what
  \<^verbatim>\<open>open(path, O_RDONLY | O_NONBLOCK)\<close> returns when the loop holds \<open>n\<close> descriptors
  already (negative for a failure), and no call succeeds once the loop holds
  \<open>fd_limit\<close> descriptors (the limit on open files of the process).
\<close>

record sys =
  open_fd :: "string \<Rightarrow> nat \<Rightarrow> int"
  fd_limit :: nat

definition sys_open :: "sys \<Rightarrow> string \<Rightarrow> nat \<Rightarrow> int" where
  "sys_open S path n = (if n < fd_limit S then open_fd S path n else - 1)"

text \<open>The decimal digits of \<^verbatim>\<open>%u\<close>.\<close>

fun show_nat :: "nat \<Rightarrow> string" where
  "show_nat n =
     (if n < 10 then [''0123456789'' ! n]
      else show_nat (n div 10) @ [''0123456789'' ! (n mod 10)])"

declare show_nat.simps [simp del]

text \<open>
  The \<^verbatim>\<open>while (1)\<close> loop that fills \<^verbatim>\<open>pfd\<close>; \<^verbatim>\<open>nfd\<close> is the length of the list.
  \<^verbatim>\<open>xrealloc_vector\<close> zeroes the new entry, so \<^verbatim>\<open>revents\<close> starts at 0.
\<close>

function open_sources :: "sys \<Rightarrow> 32 word \<Rightarrow> string \<Rightarrow> pollfd list \<Rightarrow> error + pollfd list" where
  "open_sources S opts opt_input pfd =
     (if sys_open S (if opts AND OPT_e \<noteq> 0 then opt_input
                     else opt_input @ show_nat (length pfd)) (length pfd) < 0
      then (if length pfd = 0
            then Inl (Die (if opts AND OPT_e \<noteq> 0 then opt_input
                           else opt_input @ show_nat (length pfd)))
            else Inr pfd)
      else open_sources S opts opt_input
             (pfd @ [\<lparr>fd = sys_open S (if opts AND OPT_e \<noteq> 0 then opt_input
                                         else opt_input @ show_nat (length pfd)) (length pfd),
                      events = POLLIN, revents = 0\<rparr>]))"
  by pat_completeness auto
termination
  by (relation "measure (\<lambda>(S, opts, opt_input, pfd). fd_limit S - length pfd)")
     (auto simp: sys_open_def split: if_splits)

declare open_sources.simps [simp del]

subsection \<open>acpid\_main: the poll loop\<close>

text \<open>
  The trailing field of a textual line is cut off: \<^verbatim>\<open>len = strlen(buf) - 9\<close> is computed
  in \<^verbatim>\<open>size_t\<close> and stored in an \<^verbatim>\<open>int\<close>, and the buffer is cut at \<^verbatim>\<open>len\<close> when
  \<^verbatim>\<open>len >= 0\<close>.
\<close>

definition strip_tail :: "string \<Rightarrow> string" where
  "strip_tail buf =
     (let len = sint (word_of_nat (length buf) - 9 :: 32 word)
      in if len \<ge> 0 then take (nat len) buf else buf)"

text \<open>
  One return of \<^verbatim>\<open>poll\<close> with a positive result: the \<^verbatim>\<open>revents\<close> it stores for each
  descriptor, and what the reads and \<^verbatim>\<open>stat\<close> answer until the next call of
  \<^verbatim>\<open>poll\<close>. \<open>reads_line\<close> is the line that \<^verbatim>\<open>xmalloc_reads\<close> returns (the source
  does not test it for \<^verbatim>\<open>NULL\<close>, and neither does the model); \<open>read_event\<close>
  is the record when \<^verbatim>\<open>full_read\<close> returns \<^verbatim>\<open>sizeof(ev)\<close>, and \<^const>\<open>None\<close> on a
  short or failed read.
\<close>

record wakeup =
  poll_revents :: "int \<Rightarrow> 16 word"
  reads_line :: "int \<Rightarrow> string"
  read_event :: "int \<Rightarrow> input_event option"
  stat_mode :: "string \<Rightarrow> 32 word option"

text \<open>The body of the \<^verbatim>\<open>for\<close> loop, for one descriptor; each \<^verbatim>\<open>continue\<close> is \<open>[]\<close>.\<close>

definition handle_fd :: "globals \<Rightarrow> 32 word \<Rightarrow> wakeup \<Rightarrow> pollfd \<Rightarrow> effect list" where
  "handle_fd G opts w p =
     (if poll_revents w (fd p) AND POLLIN = 0 then []
      else if opts AND OPT_e \<noteq> 0 then
        (case find_action G None (Some (strip_tail (reads_line w (fd p)))) of
           None \<Rightarrow> []
         | Some event \<Rightarrow> process_event opts (stat_mode w) event)
      else
        (case read_event w (fd p) of
           None \<Rightarrow> []
         | Some ev \<Rightarrow>
            if ev_value ev \<noteq> 1 \<and> ev_value ev \<noteq> 0 then []
            else (case find_action G (Some ev) None of
                    None \<Rightarrow> []
                  | Some event \<Rightarrow> process_event opts (stat_mode w) event)))"

text \<open>The \<^verbatim>\<open>for\<close> loop over the descriptors, and the \<^verbatim>\<open>while\<close> loop over the wakeups.\<close>

fun poll_round :: "globals \<Rightarrow> 32 word \<Rightarrow> wakeup \<Rightarrow> pollfd list \<Rightarrow> effect list" where
  "poll_round G opts w [] = []"
| "poll_round G opts w (p # ps) = handle_fd G opts w p @ poll_round G opts w ps"

fun poll_loop :: "globals \<Rightarrow> 32 word \<Rightarrow> pollfd list \<Rightarrow> wakeup list \<Rightarrow> effect list" where
  "poll_loop G opts pfd [] = []"
| "poll_loop G opts pfd (w # ws) = poll_round G opts w pfd @ poll_loop G opts pfd ws"

section \<open>Properties\<close>

subsection \<open>The string functions\<close>

lemma strncmp_zero_iff: "strncmp s1 s2 n = 0 \<longleftrightarrow> take n s1 = take n s2"
  by (induction s1 s2 n rule: strncmp.induct) auto

lemma buf_matches_prefix: "buf_matches b r \<longleftrightarrow> prefix b (desc r)"
proof -
  have "take (length b) (desc r) = b \<longleftrightarrow> prefix b (desc r)"
    by (metis append_eq_conv_conj prefix_def)
  then show ?thesis
    by (auto simp: buf_matches_def strncmp_zero_iff)
qed

lemma strstr_sublist: "strstr h n \<noteq> None \<longleftrightarrow> sublist n h"
  by (induction h) (auto simp: sublist_Cons_right)

lemma strncmp_take: "strncmp b d (length b) = 0 \<longleftrightarrow> take (length b) d = b"
  by (auto simp: strncmp_zero_iff)

lemma act_row_matches_sublist: "act_row_matches a r \<longleftrightarrow> sublist (key r) a"
  unfolding act_row_matches_def by (rule strstr_sublist)

subsection \<open>The loops as searches for the first row\<close>

lemma map_event_find:
  "map_event rs ev buf = map_option desc (find (evt_row_matches ev buf) rs)"
  by (induction rs) (auto simp: evt_row_matches_def)

lemma get_action_find:
  "get_action rs a = (case find (act_row_matches a) rs of None \<Rightarrow> a | Some r \<Rightarrow> action r)"
  by (induction rs) (auto simp: act_row_matches_def)

lemma find_first_index:
  "i < length xs \<Longrightarrow> P (xs ! i) \<Longrightarrow> \<forall>m<i. \<not> P (xs ! m) \<Longrightarrow> find P xs = Some (xs ! i)"
  by (auto simp: find_Some_iff)

lemma least_matching_index:
  assumes "i < length xs" "P (xs ! i)"
  shows "\<exists>k\<le>i. P (xs ! k) \<and> (\<forall>m<k. \<not> P (xs ! m))"
proof -
  define k where "k = (LEAST k. P (xs ! k))"
  have "P (xs ! k)" unfolding k_def using assms(2) by (rule LeastI)
  moreover have "k \<le> i" unfolding k_def using assms(2) by (rule Least_le)
  moreover have "\<forall>m<k. \<not> P (xs ! m)" unfolding k_def using not_less_Least by blast
  ultimately show ?thesis by blast
qed

lemma map_event_None_iff:
  "map_event rs ev buf = None \<longleftrightarrow> (\<forall>r\<in>set rs. \<not> evt_row_matches ev buf r)"
  by (auto simp: map_event_find find_None_iff)

lemma get_action_codomain: "get_action rs a = a \<or> (\<exists>r\<in>set rs. get_action rs a = action r)"
  by (induction rs) auto

lemma map_event_codomain: "map_event rs ev buf = Some d \<Longrightarrow> \<exists>r\<in>set rs. d = desc r"
  by (induction rs) (auto split: if_splits)

lemma process_event_nonempty: "process_event opts st event \<noteq> []"
  by (simp add: process_event_def Let_def split: option.split)

lemma process_event_by_mode:
  "process_event opts st event =
     (if opts AND OPT_d \<noteq> 0 then [Error_msg event] else []) @
     (case st event of
        None \<Rightarrow> [Perror_msg event]
      | Some m \<Rightarrow> if m AND S_IFDIR \<noteq> 0 then [Spawn [''run-parts'', ''./'' @ event]]
                  else [Spawn [''./'' @ event]])"
  by (simp add: process_event_def Let_def split: option.split)

lemma S_IFDIR_bit_of_directory: "S_ISDIR m \<Longrightarrow> m AND S_IFDIR \<noteq> 0"
proof -
  assume d: "S_ISDIR m"
  have "m AND S_IFDIR = (m AND S_IFMT) AND S_IFDIR"
    by (simp add: S_IFMT_def S_IFDIR_def and.assoc)
  also from d have "\<dots> = S_IFDIR" by (simp add: S_ISDIR_def)
  finally show ?thesis by (simp add: S_IFDIR_def)
qed

lemma S_IFDIR_bit_of_regular: "m AND S_IFMT = S_IFREG \<Longrightarrow> m AND S_IFDIR = 0"
proof -
  assume r: "m AND S_IFMT = S_IFREG"
  have "m AND S_IFDIR = (m AND S_IFMT) AND S_IFDIR"
    by (simp add: S_IFMT_def S_IFDIR_def and.assoc)
  also from r have "\<dots> = S_IFREG AND S_IFDIR" by simp
  finally show ?thesis by (simp add: S_IFDIR_def S_IFREG_def)
qed

lemma process_event_directory:
  "st event = Some m \<Longrightarrow> S_ISDIR m \<Longrightarrow>
     process_event opts st event =
       (if opts AND OPT_d \<noteq> 0 then [Error_msg event] else []) @
       [Spawn [''run-parts'', ''./'' @ event]]"
  by (simp add: process_event_by_mode S_IFDIR_bit_of_directory)

lemma process_event_regular:
  "st event = Some m \<Longrightarrow> m AND S_IFMT = S_IFREG \<Longrightarrow>
     process_event opts st event =
       (if opts AND OPT_d \<noteq> 0 then [Error_msg event] else []) @ [Spawn [''./'' @ event]]"
  by (simp add: process_event_by_mode S_IFDIR_bit_of_regular)

lemma process_event_missing:
  "st event = None \<Longrightarrow>
     process_event opts st event =
       (if opts AND OPT_d \<noteq> 0 then [Error_msg event] else []) @ [Perror_msg event]"
  by (simp add: process_event_by_mode)

lemma strip_tail_nine: "length line = 9 \<Longrightarrow> strip_tail line = []"
  by (simp add: strip_tail_def)

subsection \<open>The loops that fill the tables and the descriptor list\<close>

lemma parse_conf_lines_append:
  "act_tab (parse_conf_lines ls G) = act_tab G @ map (\<lambda>(k, a). \<lparr>key = k, action = a\<rparr>) ls"
  by (induction ls G rule: parse_conf_lines.induct) simp_all

lemma parse_map_lines_append:
  "parse_map_lines L ls G = Inr G' \<Longrightarrow>
     length (evt_tab G') = length (evt_tab G) + length ls \<and>
     map desc (evt_tab G') = map desc (evt_tab G) @ map (\<lambda>(t0, t1, t2, t3, t4, t5). t5) ls"
proof (induction L ls G rule: parse_map_lines.induct)
  case (1 L G)
  then show ?case by simp
next
  case (2 L t0 t1 t2 t3 t4 t5 ls G)
  from "2.prems" obtain ty cd v where c: "xstrtou L t1 16 = Some ty" "xatou16 L t3 = Some cd"
      "xatoi_positive L t4 = Some v"
    by (auto split: option.splits)
  with "2.prems" have "parse_map_lines L ls
       (G\<lparr>evt_tab := evt_tab G @
          [\<lparr>s_type = t0, n_type = ucast ty, s_code = t2, n_code = cd,
            value = v, desc = t5\<rparr>]\<rparr>) = Inr G'"
    by simp
  from "2.IH" [OF c this] show ?case by simp
qed

lemma open_sources_grows:
  "pfd \<noteq> [] \<Longrightarrow> \<exists>out. open_sources S opts path pfd = Inr out \<and> length pfd \<le> length out"
proof (induction S opts path pfd rule: open_sources.induct)
  case (1 S opts opt_input pfd)
  show ?case
  proof (cases "sys_open S (if opts AND OPT_e \<noteq> 0 then opt_input
                     else opt_input @ show_nat (length pfd)) (length pfd) < 0")
    case True
    with "1.prems" show ?thesis by (subst open_sources.simps) simp
  next
    case False
    from "1.IH" [OF False] obtain out where
      "open_sources S opts opt_input
         (pfd @ [\<lparr>fd = sys_open S (if opts AND OPT_e \<noteq> 0 then opt_input
                                         else opt_input @ show_nat (length pfd)) (length pfd),
                      events = POLLIN, revents = 0\<rparr>]) = Inr out"
      and "length pfd + 1 \<le> length out"
      by auto
    with False show ?thesis by (subst open_sources.simps) simp
  qed
qed

lemma explicit_path_once:
  assumes "opts AND OPT_e \<noteq> 0" "0 \<le> sys_open S path 0" "sys_open S path 1 < 0"
  shows "open_sources S opts path [] =
    Inr [\<lparr>fd = sys_open S path 0, events = POLLIN, revents = 0\<rparr>]"
proof -
  let ?p0 = "\<lparr>fd = sys_open S path 0, events = POLLIN, revents = 0\<rparr>"
  have "open_sources S opts path [] = open_sources S opts path [?p0]"
    using assms(1,2) by (subst open_sources.simps) simp
  also have "\<dots> = Inr [?p0]"
    using assms(1,3) by (subst open_sources.simps) simp
  finally show ?thesis .
qed

lemma sublist_PWRF: "sublist ''PWRF'' ''button/power PWRF 00000080''"
  by (simp add: sublist_Cons_right)

lemma not_sublist_PWRB:
  "\<not> sublist ''PWRF'' ''button/power PWRB 00000080''"
  "\<not> sublist ''LID0'' ''button/power PWRB 00000080''"
  by (simp_all add: sublist_Cons_right)

section \<open>The claims\<close>

text \<open>
  C1. With \<^verbatim>\<open>OPT_e\<close> the opening phase is claimed to open exactly one descriptor. The
  loop has no exit for that mode: it opens the same fixed path again and again until
  \<^verbatim>\<open>open\<close> fails. Whenever the second \<^verbatim>\<open>open\<close> of the path succeeds, the list that
  enters the poll loop holds at least two descriptors.
\<close>

theorem explicit_path_opened_again:
  assumes "opts AND OPT_e \<noteq> 0" "0 \<le> sys_open S path 0" "0 \<le> sys_open S path 1"
  shows "\<exists>pfd. open_sources S opts path [] = Inr pfd \<and> 2 \<le> length pfd"
proof -
  let ?p0 = "\<lparr>fd = sys_open S path 0, events = POLLIN, revents = 0\<rparr>"
  let ?p1 = "\<lparr>fd = sys_open S path 1, events = POLLIN, revents = 0\<rparr>"
  have a: "open_sources S opts path [] = open_sources S opts path [?p0]"
    using assms(1,2) by (subst open_sources.simps) simp
  have b: "open_sources S opts path [?p0] = open_sources S opts path [?p0, ?p1]"
    using assms(1,3) by (subst open_sources.simps) simp
  from open_sources_grows [of "[?p0, ?p1]" S opts path] obtain out where
    "open_sources S opts path [?p0, ?p1] = Inr out" "2 \<le> length out"
    by auto
  with a b show ?thesis by simp
qed

text \<open>An instance: a path that can be opened three times, after which \<^verbatim>\<open>open\<close> fails.\<close>

theorem explicit_path_opened_again_witness:
  "OPT_e AND OPT_e \<noteq> 0 \<and>
   0 \<le> sys_open \<lparr>open_fd = (\<lambda>p n. if p = ''/proc/acpi/event'' then 3 + int n else - 1), fd_limit = 3\<rparr> ''/proc/acpi/event'' 0 \<and>
   0 \<le> sys_open \<lparr>open_fd = (\<lambda>p n. if p = ''/proc/acpi/event'' then 3 + int n else - 1), fd_limit = 3\<rparr> ''/proc/acpi/event'' 1 \<and>
   open_sources \<lparr>open_fd = (\<lambda>p n. if p = ''/proc/acpi/event'' then 3 + int n else - 1), fd_limit = 3\<rparr> OPT_e ''/proc/acpi/event'' [] =
     Inr [\<lparr>fd = 3, events = POLLIN, revents = 0\<rparr>, \<lparr>fd = 4, events = POLLIN, revents = 0\<rparr>,
          \<lparr>fd = 5, events = POLLIN, revents = 0\<rparr>] \<and>
   (\<exists>pfd. open_sources \<lparr>open_fd = (\<lambda>p n. if p = ''/proc/acpi/event'' then 3 + int n else - 1), fd_limit = 3\<rparr> OPT_e ''/proc/acpi/event'' [] = Inr pfd \<and> 2 \<le> length pfd)"
proof -
  let ?S = "\<lparr>open_fd = (\<lambda>p n. if p = ''/proc/acpi/event'' then 3 + int n else - 1), fd_limit = 3\<rparr>"
  have h: "OPT_e AND OPT_e \<noteq> 0" "0 \<le> sys_open ?S ''/proc/acpi/event'' 0"
    "0 \<le> sys_open ?S ''/proc/acpi/event'' 1"
    by (simp_all add: OPT_e_def sys_open_def)
  have e: "open_sources ?S OPT_e ''/proc/acpi/event'' [] =
     Inr [\<lparr>fd = 3, events = POLLIN, revents = 0\<rparr>, \<lparr>fd = 4, events = POLLIN, revents = 0\<rparr>,
          \<lparr>fd = 5, events = POLLIN, revents = 0\<rparr>]"
    by (simp add: open_sources.simps OPT_e_def sys_open_def)
  from explicit_path_opened_again [OF h] h e show ?thesis by blast
qed


text \<open>
  C2. Both loops are first-match-in-order: when two rows \<open>i < j\<close> of a table match, the
  result is that of the first matching row of the table, which stands at an index
  \<open>k \<le> i\<close>, before \<open>j\<close>.
\<close>

theorem first_match_in_order:
  "(i < j \<and> j < length (evt_tab G) \<and>
    evt_row_matches ev buf (evt_tab G ! i) \<and> evt_row_matches ev buf (evt_tab G ! j) \<longrightarrow>
      (\<exists>k\<le>i. evt_row_matches ev buf (evt_tab G ! k) \<and>
         (\<forall>m<k. \<not> evt_row_matches ev buf (evt_tab G ! m)) \<and>
         map_event (evt_tab G) ev buf = Some (desc (evt_tab G ! k)) \<and>
         find_action G ev buf = Some (get_action (act_tab G) (desc (evt_tab G ! k))))) \<and>
   (i < j \<and> j < length (act_tab G) \<and>
    act_row_matches a (act_tab G ! i) \<and> act_row_matches a (act_tab G ! j) \<longrightarrow>
      (\<exists>k\<le>i. act_row_matches a (act_tab G ! k) \<and>
         (\<forall>m<k. \<not> act_row_matches a (act_tab G ! m)) \<and>
         get_action (act_tab G) a = action (act_tab G ! k)))"
proof (intro conjI impI)
  assume h: "i < j \<and> j < length (evt_tab G) \<and>
    evt_row_matches ev buf (evt_tab G ! i) \<and> evt_row_matches ev buf (evt_tab G ! j)"
  then obtain k where k: "k \<le> i" "evt_row_matches ev buf (evt_tab G ! k)"
      "\<forall>m<k. \<not> evt_row_matches ev buf (evt_tab G ! m)"
    using least_matching_index [of i "evt_tab G" "evt_row_matches ev buf"] by auto
  from h k have "k < length (evt_tab G)" by simp
  with k have "find (evt_row_matches ev buf) (evt_tab G) = Some (evt_tab G ! k)"
    by (simp add: find_first_index)
  then have "map_event (evt_tab G) ev buf = Some (desc (evt_tab G ! k))"
    by (simp add: map_event_find)
  with k show "\<exists>k\<le>i. evt_row_matches ev buf (evt_tab G ! k) \<and>
         (\<forall>m<k. \<not> evt_row_matches ev buf (evt_tab G ! m)) \<and>
         map_event (evt_tab G) ev buf = Some (desc (evt_tab G ! k)) \<and>
         find_action G ev buf = Some (get_action (act_tab G) (desc (evt_tab G ! k)))"
    by (auto simp: find_action_def)
next
  assume h: "i < j \<and> j < length (act_tab G) \<and>
    act_row_matches a (act_tab G ! i) \<and> act_row_matches a (act_tab G ! j)"
  then obtain k where k: "k \<le> i" "act_row_matches a (act_tab G ! k)"
      "\<forall>m<k. \<not> act_row_matches a (act_tab G ! m)"
    using least_matching_index [of i "act_tab G" "act_row_matches a"] by auto
  from h k have "k < length (act_tab G)" by simp
  with k have "find (act_row_matches a) (act_tab G) = Some (act_tab G ! k)"
    by (simp add: find_first_index)
  then have "get_action (act_tab G) a = action (act_tab G ! k)"
    by (simp add: get_action_find)
  with k show "\<exists>k\<le>i. act_row_matches a (act_tab G ! k) \<and>
         (\<forall>m<k. \<not> act_row_matches a (act_tab G ! m)) \<and>
         get_action (act_tab G) a = action (act_tab G ! k)"
    by auto
qed

text \<open>
  An instance: both built-in event rows carry the triple (1, 116, 1), and both keys
  occur in the description of the first.
\<close>

theorem first_match_in_order_witness:
  "(0::nat) < 1 \<and> 1 < length (evt_tab \<lparr>act_tab = [\<lparr>key = ''PWR'', action = ''first''\<rparr>, \<lparr>key = ''PWRF'', action = ''second''\<rparr>], evt_tab = f_evt_tab\<rparr>) \<and>
   evt_row_matches (Some \<lparr>ev_type = 1, ev_code = 116, ev_value = 1\<rparr>) None (f_evt_tab ! 0) \<and>
   evt_row_matches (Some \<lparr>ev_type = 1, ev_code = 116, ev_value = 1\<rparr>) None (f_evt_tab ! 1) \<and>
   act_row_matches ''button/power PWRF 00000080'' \<lparr>key = ''PWR'', action = ''first''\<rparr> \<and>
   act_row_matches ''button/power PWRF 00000080'' \<lparr>key = ''PWRF'', action = ''second''\<rparr> \<and>
   find_action \<lparr>act_tab = [\<lparr>key = ''PWR'', action = ''first''\<rparr>, \<lparr>key = ''PWRF'', action = ''second''\<rparr>], evt_tab = f_evt_tab\<rparr>
     (Some \<lparr>ev_type = 1, ev_code = 116, ev_value = 1\<rparr>) None = Some ''first''"
proof -
  let ?G = "\<lparr>act_tab = [\<lparr>key = ''PWR'', action = ''first''\<rparr>, \<lparr>key = ''PWRF'', action = ''second''\<rparr>], evt_tab = f_evt_tab\<rparr>"
  let ?ev = "Some \<lparr>ev_type = 1, ev_code = 116, ev_value = 1\<rparr>"
  let ?a = "''button/power PWRF 00000080''"
  have e: "evt_row_matches ?ev None (f_evt_tab ! 0)" "evt_row_matches ?ev None (f_evt_tab ! 1)"
    by (simp_all add: evt_row_matches_def ev_matches_def f_evt_tab_def)
  have a: "act_row_matches ?a \<lparr>key = ''PWR'', action = ''first''\<rparr>"
      "act_row_matches ?a \<lparr>key = ''PWRF'', action = ''second''\<rparr>"
    by (simp_all add: act_row_matches_def)
  have l: "length (evt_tab ?G) = 2" by (simp add: f_evt_tab_def)
  from first_match_in_order [of 0 1 ?G ?ev None ?a] e a l
  have "find_action ?G ?ev None = Some (get_action (act_tab ?G) (desc (evt_tab ?G ! 0)))"
    and "get_action (act_tab ?G) ?a = action (act_tab ?G ! 0)"
    by simp_all
  then have "find_action ?G ?ev None = Some ''first''"
    by (simp add: f_evt_tab_def)
  with e a l show ?thesis by simp
qed

text \<open>
  C3. A binary triple that equals the triple of no row of the event table resolves to
  nothing: the first loop ends without a match, \<^verbatim>\<open>find_action\<close> returns \<^verbatim>\<open>NULL\<close>,
  and the loop body of \<^verbatim>\<open>acpid_main\<close> produces no effect, so \<^verbatim>\<open>process_event\<close> is
  not called.
\<close>

theorem unmatched_triple_dropped:
  assumes "\<forall>r\<in>set (evt_tab G).
     (ev_type ev, ev_code ev, ev_value ev) \<noteq> (n_type r, n_code r, value r)"
  shows "map_event (evt_tab G) (Some ev) None = None \<and>
    find_action G (Some ev) None = None \<and>
    (opts AND OPT_e = 0 \<and> read_event w (fd p) = Some ev \<longrightarrow> handle_fd G opts w p = [])"
proof -
  from assms have "\<forall>r\<in>set (evt_tab G). \<not> evt_row_matches (Some ev) None r"
    by (auto simp: evt_row_matches_def ev_matches_def)
  then have m: "map_event (evt_tab G) (Some ev) None = None"
    by (simp add: map_event_None_iff)
  then have f: "find_action G (Some ev) None = None"
    by (simp add: find_action_def)
  from m f show ?thesis
    by (simp add: handle_fd_def)
qed

text \<open>An instance: the key release (1, 116, 0) against the built-in tables.\<close>

theorem unmatched_triple_dropped_witness:
  "(1 :: 16 word, 116 :: 16 word, 0 :: 32 word) \<noteq>
     (n_type (f_evt_tab ! 0), n_code (f_evt_tab ! 0), value (f_evt_tab ! 0)) \<and>
   (1 :: 16 word, 116 :: 16 word, 0 :: 32 word) \<noteq>
     (n_type (f_evt_tab ! 1), n_code (f_evt_tab ! 1), value (f_evt_tab ! 1)) \<and>
   find_action \<lparr>act_tab = f_act_tab, evt_tab = f_evt_tab\<rparr>
     (Some \<lparr>ev_type = 1, ev_code = 116, ev_value = 0\<rparr>) None = None \<and>
   handle_fd \<lparr>act_tab = f_act_tab, evt_tab = f_evt_tab\<rparr> 0
     \<lparr>poll_revents = (\<lambda>d. POLLIN), reads_line = (\<lambda>d. []),
      read_event = (\<lambda>d. Some \<lparr>ev_type = 1, ev_code = 116, ev_value = 0\<rparr>),
      stat_mode = (\<lambda>path. Some S_IFDIR)\<rparr>
     \<lparr>fd = 3, events = POLLIN, revents = 0\<rparr> = []"
proof -
  let ?G = "\<lparr>act_tab = f_act_tab, evt_tab = f_evt_tab\<rparr>"
  let ?ev = "\<lparr>ev_type = 1, ev_code = 116, ev_value = 0\<rparr>"
  let ?w = "\<lparr>poll_revents = (\<lambda>d. POLLIN), reads_line = (\<lambda>d. []),
      read_event = (\<lambda>d. Some ?ev), stat_mode = (\<lambda>path. Some S_IFDIR)\<rparr>"
  let ?p = "\<lparr>fd = 3, events = POLLIN, revents = 0\<rparr>"
  have h: "\<forall>r\<in>set (evt_tab ?G).
     (ev_type ?ev, ev_code ?ev, ev_value ?ev) \<noteq> (n_type r, n_code r, value r)"
    by (simp add: f_evt_tab_def)
  have "(0 :: 32 word) AND OPT_e = 0 \<and> read_event ?w (fd ?p) = Some ?ev"
    by simp
  with unmatched_triple_dropped [OF h, of 0 ?w ?p]
  have "find_action ?G (Some ?ev) None = None" "handle_fd ?G 0 ?w ?p = []"
    by blast+
  then show ?thesis by (simp add: f_evt_tab_def)
qed

text \<open>
  C4. The second stage: the final action is the \<open>action\<close> of the first row of the
  action table whose key is a substring of the description; when no key is a substring,
  it is the description itself. A description found by the first stage is never dropped
  by the second.
\<close>

theorem stage2_first_substring_or_passthrough:
  "(i < length (act_tab G) \<and> sublist (key (act_tab G ! i)) d \<and>
      (\<forall>j<i. \<not> sublist (key (act_tab G ! j)) d) \<longrightarrow>
        get_action (act_tab G) d = action (act_tab G ! i)) \<and>
   ((\<forall>r\<in>set (act_tab G). \<not> sublist (key r) d) \<longrightarrow> get_action (act_tab G) d = d) \<and>
   (map_event (evt_tab G) ev buf = Some d \<longrightarrow>
      find_action G ev buf = Some (get_action (act_tab G) d))"
proof (intro conjI impI)
  assume "i < length (act_tab G) \<and> sublist (key (act_tab G ! i)) d \<and>
      (\<forall>j<i. \<not> sublist (key (act_tab G ! j)) d)"
  then have "find (act_row_matches d) (act_tab G) = Some (act_tab G ! i)"
    by (intro find_first_index) (simp_all add: act_row_matches_sublist)
  then show "get_action (act_tab G) d = action (act_tab G ! i)"
    by (simp add: get_action_find)
next
  assume "\<forall>r\<in>set (act_tab G). \<not> sublist (key r) d"
  then have "find (act_row_matches d) (act_tab G) = None"
    by (simp add: find_None_iff act_row_matches_sublist)
  then show "get_action (act_tab G) d = d"
    by (simp add: get_action_find)
next
  assume "map_event (evt_tab G) ev buf = Some d"
  then show "find_action G ev buf = Some (get_action (act_tab G) d)"
    by (simp add: find_action_def)
qed

text \<open>An instance: the two built-in descriptions against the built-in action table.\<close>

theorem stage2_witness:
  "0 < length (act_tab \<lparr>act_tab = f_act_tab, evt_tab = f_evt_tab\<rparr>) \<and>
   sublist (key (f_act_tab ! 0)) ''button/power PWRF 00000080'' \<and>
   get_action f_act_tab ''button/power PWRF 00000080'' = ''PWRF/00000080'' \<and>
   \<not> sublist (key (f_act_tab ! 0)) ''button/power PWRB 00000080'' \<and>
   \<not> sublist (key (f_act_tab ! 1)) ''button/power PWRB 00000080'' \<and>
   get_action f_act_tab ''button/power PWRB 00000080'' = ''button/power PWRB 00000080'' \<and>
   map_event f_evt_tab None (Some ''button/power PWRB 00000080'') =
     Some ''button/power PWRB 00000080'' \<and>
   find_action \<lparr>act_tab = f_act_tab, evt_tab = f_evt_tab\<rparr> None
     (Some ''button/power PWRB 00000080'') = Some ''button/power PWRB 00000080''"
proof -
  let ?G = "\<lparr>act_tab = f_act_tab, evt_tab = f_evt_tab\<rparr>"
  let ?F = "''button/power PWRF 00000080''"
  let ?B = "''button/power PWRB 00000080''"
  have k: "key (f_act_tab ! 0) = ''PWRF''" "key (f_act_tab ! 1) = ''LID0''"
    "action (f_act_tab ! 0) = ''PWRF/00000080''" "length f_act_tab = 2"
    by (simp_all add: f_act_tab_def)
  have a: "0 < length (act_tab ?G) \<and> sublist (key (act_tab ?G ! 0)) ?F \<and>
      (\<forall>j<0. \<not> sublist (key (act_tab ?G ! j)) ?F)"
    by (simp add: k sublist_PWRF)
  have b: "\<forall>r\<in>set (act_tab ?G). \<not> sublist (key r) ?B"
    by (simp add: f_act_tab_def not_sublist_PWRB)
  have m: "map_event (evt_tab ?G) None (Some ?B) = Some ?B"
    by (simp add: f_evt_tab_def buf_matches_def)
  from stage2_first_substring_or_passthrough [of 0 ?G ?F None None] a
  have 1: "get_action f_act_tab ?F = ''PWRF/00000080''" by (simp add: k)
  from stage2_first_substring_or_passthrough [of 0 ?G ?B None "Some ?B"] b m
  have 2: "get_action f_act_tab ?B = ?B" "find_action ?G None (Some ?B) = Some ?B"
    by simp_all
  from 1 2 m k show ?thesis
    by (simp add: sublist_PWRF not_sublist_PWRB)
qed

text \<open>
  C5. A binary record whose value is neither 0 nor 1 is dropped before any lookup: the
  loop body produces no effect, whatever the tables hold.
\<close>

theorem other_values_filtered:
  assumes "ev_value ev \<noteq> 0" "ev_value ev \<noteq> 1"
    and "opts AND OPT_e = 0" "read_event w (fd p) = Some ev"
  shows "handle_fd G opts w p = []"
  using assms by (simp add: handle_fd_def)

text \<open>An instance: a key repeat (value 2), with a table row that carries the very triple.\<close>

theorem other_values_filtered_witness:
  "(2 :: 32 word) \<noteq> 0 \<and> (2 :: 32 word) \<noteq> 1 \<and> (0 :: 32 word) AND OPT_e = 0 \<and>
   handle_fd \<lparr>act_tab = [], evt_tab = [\<lparr>s_type = ''EV_KEY'', n_type = 1, s_code = ''KEY_POWER'',
        n_code = 116, value = 2, desc = ''button/power PWRF 00000080''\<rparr>]\<rparr> 0
     \<lparr>poll_revents = (\<lambda>d. POLLIN), reads_line = (\<lambda>d. []),
      read_event = (\<lambda>d. Some \<lparr>ev_type = 1, ev_code = 116, ev_value = 2\<rparr>),
      stat_mode = (\<lambda>path. Some S_IFDIR)\<rparr>
     \<lparr>fd = 3, events = POLLIN, revents = 0\<rparr> = []"
proof -
  let ?ev = "\<lparr>ev_type = 1, ev_code = 116, ev_value = 2\<rparr>"
  let ?w = "\<lparr>poll_revents = (\<lambda>d. POLLIN), reads_line = (\<lambda>d. []),
      read_event = (\<lambda>d. Some ?ev), stat_mode = (\<lambda>path. Some S_IFDIR)\<rparr>"
  let ?p = "\<lparr>fd = 3, events = POLLIN, revents = 0\<rparr>"
  have h: "ev_value ?ev \<noteq> 0" "ev_value ?ev \<noteq> 1" "(0 :: 32 word) AND OPT_e = 0"
    "read_event ?w (fd ?p) = Some ?ev"
    by simp_all
  from other_values_filtered [OF h] h show ?thesis by simp
qed

text \<open>
  C6. A configuration file that cannot be opened installs the built-in table: the two
  rows PWRF and LID0 of the action table, the two rows of the event table. A file that
  opens appends one row for each line that \<^verbatim>\<open>config_read\<close> delivers.
\<close>

theorem config_fallback_and_append:
  "(conf_open name = None \<longrightarrow>
      act_tab (parse_conf_file conf_open name G) =
        [\<lparr>key = ''PWRF'', action = ''PWRF/00000080''\<rparr>,
         \<lparr>key = ''LID0'', action = ''LID/00000080''\<rparr>]) \<and>
   (map_open name = None \<longrightarrow>
      (\<exists>G'. parse_map_file L map_open name G = Inr G' \<and> evt_tab G' = f_evt_tab \<and>
         length (evt_tab G') = 2)) \<and>
   (conf_open name = Some cl \<longrightarrow>
      act_tab (parse_conf_file conf_open name G) =
        act_tab G @ map (\<lambda>(k, a). \<lparr>key = k, action = a\<rparr>) cl) \<and>
   (map_open name = Some ml \<and> parse_map_file L map_open name G = Inr G' \<longrightarrow>
      length (evt_tab G') = length (evt_tab G) + length ml \<and>
      map desc (evt_tab G') =
        map desc (evt_tab G) @ map (\<lambda>(t0, t1, t2, t3, t4, t5). t5) ml)"
proof (intro conjI impI)
  assume "conf_open name = None"
  then show "act_tab (parse_conf_file conf_open name G) =
        [\<lparr>key = ''PWRF'', action = ''PWRF/00000080''\<rparr>,
         \<lparr>key = ''LID0'', action = ''LID/00000080''\<rparr>]"
    by (simp add: parse_conf_file_def f_act_tab_def)
next
  assume "map_open name = None"
  then show "\<exists>G'. parse_map_file L map_open name G = Inr G' \<and> evt_tab G' = f_evt_tab \<and>
         length (evt_tab G') = 2"
    by (simp add: parse_map_file_def f_evt_tab_def)
next
  assume "conf_open name = Some cl"
  then show "act_tab (parse_conf_file conf_open name G) =
        act_tab G @ map (\<lambda>(k, a). \<lparr>key = k, action = a\<rparr>) cl"
    by (simp add: parse_conf_file_def parse_conf_lines_append)
next
  assume h: "map_open name = Some ml \<and> parse_map_file L map_open name G = Inr G'"
  then have p: "parse_map_lines L ml G = Inr G'"
    by (auto simp: parse_map_file_def)
  from parse_map_lines_append [OF p]
  show "length (evt_tab G') = length (evt_tab G) + length ml"
    and "map desc (evt_tab G') =
        map desc (evt_tab G) @ map (\<lambda>(t0, t1, t2, t3, t4, t5). t5) ml"
    by simp_all
qed

text \<open>An instance: both files missing, and both files present, from the zeroed globals.\<close>

theorem config_fallback_and_append_witness:
  "act_tab (parse_conf_file (\<lambda>f. None) ''/etc/acpid.conf'' INIT_G) =
     [\<lparr>key = ''PWRF'', action = ''PWRF/00000080''\<rparr>,
      \<lparr>key = ''LID0'', action = ''LID/00000080''\<rparr>] \<and>
   parse_map_file \<lparr>xstrtou = (\<lambda>s b. Some 1), xatou16 = (\<lambda>s. Some 116),
       xatoi_positive = (\<lambda>s. Some 1)\<rparr> (\<lambda>f. None) ''/etc/acpi.map'' INIT_G =
     Inr \<lparr>act_tab = [], evt_tab = f_evt_tab\<rparr> \<and>
   act_tab (parse_conf_file (\<lambda>f. Some [(''PWRB'', ''power''), (''LID'', ''lid'')])
       ''/etc/acpid.conf'' INIT_G) =
     [\<lparr>key = ''PWRB'', action = ''power''\<rparr>, \<lparr>key = ''LID'', action = ''lid''\<rparr>] \<and>
   parse_map_file \<lparr>xstrtou = (\<lambda>s b. Some 1), xatou16 = (\<lambda>s. Some 116),
       xatoi_positive = (\<lambda>s. Some 1)\<rparr>
       (\<lambda>f. Some [(''EV_KEY'', ''0x01'', ''KEY_POWER'', ''116'', ''1'', ''button/power PWRB 00000080'')])
       ''/etc/acpi.map'' INIT_G =
     Inr \<lparr>act_tab = [], evt_tab = [\<lparr>s_type = ''EV_KEY'', n_type = 1, s_code = ''KEY_POWER'',
       n_code = 116, value = 1, desc = ''button/power PWRB 00000080''\<rparr>]\<rparr> \<and>
   length [\<lparr>s_type = ''EV_KEY'', n_type = 1 :: 16 word, s_code = ''KEY_POWER'',
       n_code = 116 :: 16 word, value = 1 :: 32 word, desc = ''button/power PWRB 00000080''\<rparr>] =
     length (evt_tab INIT_G) +
     length [(''EV_KEY'', ''0x01'', ''KEY_POWER'', ''116'', ''1'', ''button/power PWRB 00000080'')]"
proof -
  let ?L = "\<lparr>xstrtou = (\<lambda>s b. Some 1), xatou16 = (\<lambda>s. Some 116),
       xatoi_positive = (\<lambda>s. Some 1)\<rparr>"
  let ?ml = "[(''EV_KEY'', ''0x01'', ''KEY_POWER'', ''116'', ''1'', ''button/power PWRB 00000080'')]"
  let ?cl = "[(''PWRB'', ''power''), (''LID'', ''lid'')]"
  let ?G' = "\<lparr>act_tab = [], evt_tab = [\<lparr>s_type = ''EV_KEY'', n_type = 1, s_code = ''KEY_POWER'',
       n_code = 116, value = 1, desc = ''button/power PWRB 00000080''\<rparr>]\<rparr>"
  have m: "parse_map_file ?L (\<lambda>f. Some ?ml) ''/etc/acpi.map'' INIT_G = Inr ?G'"
    by (simp add: parse_map_file_def INIT_G_def)
  from config_fallback_and_append
    [of "\<lambda>f. None" "''/etc/acpid.conf''" INIT_G "\<lambda>f. None" ?L]
  have 1: "act_tab (parse_conf_file (\<lambda>f. None) ''/etc/acpid.conf'' INIT_G) =
     [\<lparr>key = ''PWRF'', action = ''PWRF/00000080''\<rparr>,
      \<lparr>key = ''LID0'', action = ''LID/00000080''\<rparr>]"
    by simp
  have 2: "parse_map_file ?L (\<lambda>f. None) ''/etc/acpi.map'' INIT_G =
     Inr \<lparr>act_tab = [], evt_tab = f_evt_tab\<rparr>"
    by (simp add: parse_map_file_def INIT_G_def)
  from config_fallback_and_append
    [of "\<lambda>f. Some ?cl" "''/etc/acpid.conf''" INIT_G "\<lambda>f. Some ?ml" ?L ?cl ?ml]
  have 3: "act_tab (parse_conf_file (\<lambda>f. Some ?cl) ''/etc/acpid.conf'' INIT_G) =
     [\<lparr>key = ''PWRB'', action = ''power''\<rparr>, \<lparr>key = ''LID'', action = ''lid''\<rparr>]"
    by (simp add: INIT_G_def)
  from 1 2 3 m show ?thesis by (simp add: INIT_G_def)
qed

text \<open>
  C7, as amended. The buffer of the source's comment is 35 characters long, and cutting
  the trailing 9 characters leaves the 26 characters \<open>button/power PWRB 00000080\<close>; a
  row matches exactly when the first 26 characters of its description are that string.
\<close>

theorem textual_prefix_example:
  "length ''button/power PWRB 00000080 00000000'' = 35 \<and>
   strip_tail ''button/power PWRB 00000080 00000000'' = ''button/power PWRB 00000080'' \<and>
   length (strip_tail ''button/power PWRB 00000080 00000000'') = 26 \<and>
   (buf_matches (strip_tail ''button/power PWRB 00000080 00000000'') r \<longleftrightarrow>
      take 26 (desc r) = ''button/power PWRB 00000080'') \<and>
   map_event [r] None (Some (strip_tail ''button/power PWRB 00000080 00000000'')) =
     (if take 26 (desc r) = ''button/power PWRB 00000080'' then Some (desc r) else None)"
proof -
  have s: "strip_tail ''button/power PWRB 00000080 00000000'' = ''button/power PWRB 00000080''"
    by (simp add: strip_tail_def)
  have l: "length ''button/power PWRB 00000080'' = 26" by simp
  have "buf_matches ''button/power PWRB 00000080'' r \<longleftrightarrow>
      take (length ''button/power PWRB 00000080'') (desc r) = ''button/power PWRB 00000080''"
    unfolding buf_matches_def by (rule strncmp_take)
  then have b: "buf_matches ''button/power PWRB 00000080'' r \<longleftrightarrow>
      take 26 (desc r) = ''button/power PWRB 00000080''"
    unfolding l .
  show ?thesis
    unfolding s using b by simp
qed

text \<open>The lengths 36 and 27 do not hold of that buffer.\<close>

theorem textual_prefix_example_counterexample:
  "\<not> (length ''button/power PWRB 00000080 00000000'' = 36 \<and>
      length (strip_tail ''button/power PWRB 00000080 00000000'') = 27)"
  by simp

text \<open>
  C8. The dispatch is claimed to run a path that exists and is not a directory directly.
  The source tests \<^verbatim>\<open>st.st_mode & S_IFDIR\<close>, and the bit of \<^verbatim>\<open>S_IFDIR\<close> is also set in
  the file types of a block device and of a socket: for a block device, which is not a
  directory, \<^verbatim>\<open>run-parts\<close> is spawned.
\<close>

theorem block_device_run_parts:
  "\<not> S_ISDIR (S_IFBLK OR 0x1B0) \<and>
   process_event 0 (\<lambda>path. if path = ''PWRF/00000080'' then Some (S_IFBLK OR 0x1B0) else None)
     ''PWRF/00000080'' = [Spawn [''run-parts'', ''./PWRF/00000080'']]"
  by (simp add: S_ISDIR_def S_IFBLK_def S_IFMT_def S_IFDIR_def process_event_def OPT_d_def)

text \<open>
  C9. With an event table that is not empty, a textual line of exactly 9 characters is
  cut to the empty string, which every description begins with: the first stage returns
  the description of the first row, and the loop body dispatches its action.
\<close>

theorem nine_char_line_first_row:
  assumes "evt_tab G \<noteq> []" "length line = 9"
  shows "strip_tail line = [] \<and>
    map_event (evt_tab G) None (Some (strip_tail line)) = Some (desc (evt_tab G ! 0)) \<and>
    find_action G None (Some (strip_tail line)) =
      Some (get_action (act_tab G) (desc (evt_tab G ! 0))) \<and>
    (opts AND OPT_e \<noteq> 0 \<and> poll_revents w (fd p) AND POLLIN \<noteq> 0 \<and>
     reads_line w (fd p) = line \<longrightarrow>
       handle_fd G opts w p =
         process_event opts (stat_mode w) (get_action (act_tab G) (desc (evt_tab G ! 0))))"
proof -
  from assms(2) have s: "strip_tail line = []" by (rule strip_tail_nine)
  from assms(1) obtain r rs where t: "evt_tab G = r # rs" by (cases "evt_tab G") auto
  have m: "map_event (evt_tab G) None (Some []) = Some (desc r)"
    by (simp add: t buf_matches_def)
  then have f: "find_action G None (Some []) = Some (get_action (act_tab G) (desc r))"
    by (simp add: find_action_def)
  from s t m f show ?thesis by (simp add: handle_fd_def)
qed


text \<open>An instance: a blank and eight zeros, against the built-in tables.\<close>

theorem nine_char_line_first_row_witness:
  "evt_tab \<lparr>act_tab = f_act_tab, evt_tab = f_evt_tab\<rparr> \<noteq> [] \<and>
   length '' 00000000'' = 9 \<and>
   strip_tail '' 00000000'' = [] \<and>
   find_action \<lparr>act_tab = f_act_tab, evt_tab = f_evt_tab\<rparr> None
     (Some (strip_tail '' 00000000'')) = Some ''PWRF/00000080'' \<and>
   handle_fd \<lparr>act_tab = f_act_tab, evt_tab = f_evt_tab\<rparr> OPT_e
     \<lparr>poll_revents = (\<lambda>d. POLLIN), reads_line = (\<lambda>d. '' 00000000''),
      read_event = (\<lambda>d. None), stat_mode = (\<lambda>path. None)\<rparr>
     \<lparr>fd = 3, events = POLLIN, revents = 0\<rparr> = [Perror_msg ''PWRF/00000080'']"
proof -
  let ?G = "\<lparr>act_tab = f_act_tab, evt_tab = f_evt_tab\<rparr>"
  let ?w = "\<lparr>poll_revents = (\<lambda>d. POLLIN), reads_line = (\<lambda>d. '' 00000000''),
      read_event = (\<lambda>d. None), stat_mode = (\<lambda>path. None)\<rparr>"
  let ?p = "\<lparr>fd = 3, events = POLLIN, revents = 0\<rparr>"
  have h: "evt_tab ?G \<noteq> []" "length '' 00000000'' = 9"
    by (simp_all add: f_evt_tab_def)
  have c: "OPT_e AND OPT_e \<noteq> 0 \<and> poll_revents ?w (fd ?p) AND POLLIN \<noteq> 0 \<and>
     reads_line ?w (fd ?p) = '' 00000000''"
    by (simp add: OPT_e_def POLLIN_def)
  from nine_char_line_first_row [OF h, of OPT_e ?w ?p] c
  have "strip_tail '' 00000000'' = []"
    and "find_action ?G None (Some (strip_tail '' 00000000'')) =
      Some (get_action (act_tab ?G) (desc (evt_tab ?G ! 0)))"
    and "handle_fd ?G OPT_e ?w ?p =
         process_event OPT_e (stat_mode ?w) (get_action (act_tab ?G) (desc (evt_tab ?G ! 0)))"
    by blast+
  moreover have "get_action (act_tab ?G) (desc (evt_tab ?G ! 0)) = ''PWRF/00000080''"
    by (simp add: f_evt_tab_def f_act_tab_def)
  moreover have "process_event OPT_e (stat_mode ?w) ''PWRF/00000080'' =
      [Perror_msg ''PWRF/00000080'']"
    by (simp add: process_event_def OPT_e_def OPT_d_def)
  ultimately show ?thesis using h by simp
qed


text \<open>
  C10. \<^verbatim>\<open>find_action\<close> returns \<^verbatim>\<open>NULL\<close>, or the description of a row of the event
  table, or the action of a row of the action table, and nothing else.
\<close>

theorem find_action_codomain:
  "find_action G ev buf = None \<or>
   (\<exists>r\<in>set (evt_tab G). find_action G ev buf = Some (desc r)) \<or>
   (\<exists>r\<in>set (act_tab G). find_action G ev buf = Some (action r))"
proof (cases "map_event (evt_tab G) ev buf")
  case None
  then show ?thesis by (simp add: find_action_def)
next
  case (Some d)
  then obtain r where r: "r \<in> set (evt_tab G)" "d = desc r"
    using map_event_codomain by blast
  from get_action_codomain [of "act_tab G" d] Some r show ?thesis
    by (auto simp: find_action_def)
qed

end
